theory Spec2Isabelle
  imports Main "HOL-Library.Word"
begin

section \<open>The verifiable-map client (continusec/map.go)\<close>

text \<open>
  A shallow embedding of \<^verbatim>\<open>map.go\<close>: the audit-path parser
  \<^verbatim>\<open>parseHeadersForProof\<close>, the key lookup \<^verbatim>\<open>Get\<close> / \<^verbatim>\<open>VerifiedGet\<close>,
  the raw head fetch \<^verbatim>\<open>TreeHead\<close>, the polling loop \<^verbatim>\<open>BlockUntilSize\<close> and the
  reconciler \<^verbatim>\<open>VerifiedMapState\<close> / \<^verbatim>\<open>VerifiedLatestMapState\<close>.

  Go's \<^verbatim>\<open>[]byte\<close> and \<^verbatim>\<open>string\<close> are both byte sequences; an Isabelle \<open>char\<close> is a
  byte, so both are \<open>char list\<close>. A nil slice and an empty slice are both \<open>[]\<close>
  (the code only ever stores them).
\<close>

type_synonym bytes = "char list"

subsection \<open>Errors and panics\<close>

text \<open>
  A Go function of this file ends in one of three ways: it returns a value with a nil
  error, it returns a non-nil error, or it panics (index out of range, nil dereference).
  The result type is \<open>failure + 'a\<close>: \<open>Inr v\<close> is the normal return, \<open>Inl (Error e)\<close>
  the returned error \<open>e\<close>, \<open>Inl (Panic p)\<close> a run-time panic.
  \<open>Opaque n\<close> stands for an error value made by a collaborator outside this file
  (transport, JSON decoder, entry factory, log verifier).
\<close>

datatype num_err = ErrSyntax | ErrRange

datatype go_error =
    NumError string num_err
  | ErrLength
  | InvalidByteError char
  | ErrVerificationFailed
  | Opaque nat

datatype panic = IndexOutOfRange int | NilDereference

datatype failure = Error go_error | Panic panic

type_synonym 'a result = "failure + 'a"

subsection \<open>The Go standard library functions the parser calls\<close>

text \<open>
  \<^verbatim>\<open>strings.Split(s, ",")\<close> with a one-byte separator: the pieces between the
  separators, in order; a string without separator (also the empty one) is one piece.
\<close>

fun Split :: "char \<Rightarrow> string \<Rightarrow> string list" where
  "Split sep [] = [[]]"
| "Split sep (c # cs) =
     (if c = sep then [] # Split sep cs
      else (case Split sep cs of w # ws \<Rightarrow> (c # w) # ws | [] \<Rightarrow> [[c]]))"

text \<open>
  \<^verbatim>\<open>strings.SplitN(s, "/", 2)\<close>: at most two pieces, the second one the unsplit rest
  after the first separator.
\<close>

definition SplitN2 :: "char \<Rightarrow> string \<Rightarrow> string list" where
  "SplitN2 sep s =
     (if sep \<in> set s
      then [takeWhile (\<lambda>c. c \<noteq> sep) s, tl (dropWhile (\<lambda>c. c \<noteq> sep) s)]
      else [s])"

text \<open>
  \<^verbatim>\<open>strings.TrimSpace\<close> removes leading and trailing Unicode white space. In a Go
  string a code point is its UTF-8 bytes; \<open>white_space\<close> lists the encodings of
  \<^verbatim>\<open>unicode.White_Space\<close>: U+0009..U+000D, U+0020, U+0085, U+00A0, U+1680,
  U+2000..U+200A, U+2028, U+2029, U+202F, U+205F, U+3000.
\<close>

definition white_space :: "string list" where
  "white_space =
     [[CHR 0x09], [CHR 0x0A], [CHR 0x0B], [CHR 0x0C], [CHR 0x0D], [CHR 0x20],
      [CHR 0xC2, CHR 0x85], [CHR 0xC2, CHR 0xA0],
      [CHR 0xE1, CHR 0x9A, CHR 0x80],
      [CHR 0xE2, CHR 0x80, CHR 0x80], [CHR 0xE2, CHR 0x80, CHR 0x81],
      [CHR 0xE2, CHR 0x80, CHR 0x82], [CHR 0xE2, CHR 0x80, CHR 0x83],
      [CHR 0xE2, CHR 0x80, CHR 0x84], [CHR 0xE2, CHR 0x80, CHR 0x85],
      [CHR 0xE2, CHR 0x80, CHR 0x86], [CHR 0xE2, CHR 0x80, CHR 0x87],
      [CHR 0xE2, CHR 0x80, CHR 0x88], [CHR 0xE2, CHR 0x80, CHR 0x89],
      [CHR 0xE2, CHR 0x80, CHR 0x8A],
      [CHR 0xE2, CHR 0x80, CHR 0xA8], [CHR 0xE2, CHR 0x80, CHR 0xA9],
      [CHR 0xE2, CHR 0x80, CHR 0xAF], [CHR 0xE2, CHR 0x81, CHR 0x9F],
      [CHR 0xE3, CHR 0x80, CHR 0x80]]"

definition leading_space :: "string \<Rightarrow> nat" where
  "leading_space s =
     (case find (\<lambda>w. take (length w) s = w) white_space of
        None \<Rightarrow> 0 | Some w \<Rightarrow> length w)"

fun TrimLeft :: "nat \<Rightarrow> string \<Rightarrow> string" where
  "TrimLeft 0 s = s"
| "TrimLeft (Suc n) s =
     (if leading_space s = 0 then s else TrimLeft n (drop (leading_space s) s))"

definition trailing_space :: "string \<Rightarrow> nat" where
  "trailing_space s =
     (case find (\<lambda>w. drop (length s - length w) s = w \<and> length w \<le> length s) white_space of
        None \<Rightarrow> 0 | Some w \<Rightarrow> length w)"

fun TrimRight :: "nat \<Rightarrow> string \<Rightarrow> string" where
  "TrimRight 0 s = s"
| "TrimRight (Suc n) s =
     (if trailing_space s = 0 then s
      else TrimRight n (take (length s - trailing_space s) s))"

text \<open>
  Each round removes at least one byte, so \<open>length s\<close> rounds strip everything
  there is to strip.
\<close>

definition TrimSpace :: "string \<Rightarrow> string" where
  "TrimSpace s = (let l = TrimLeft (length s) s in TrimRight (length l) l)"

text \<open>
  \<^verbatim>\<open>strconv.Atoi\<close> (64-bit \<^verbatim>\<open>int\<close>): an optional sign, then one or more decimal
  digits, read left to right; the first non-digit is a syntax error, a value that
  leaves the unsigned 64-bit range while being read is a range error, and a value
  outside \<open>-2^63 .. 2^63 - 1\<close> is a range error.
\<close>

definition digit_val :: "char \<Rightarrow> int option" where
  "digit_val c =
     (let n = (of_char c :: int) in if 48 \<le> n \<and> n \<le> 57 then Some (n - 48) else None)"

fun ParseUint :: "string \<Rightarrow> int \<Rightarrow> string \<Rightarrow> go_error + int" where
  "ParseUint s0 n [] = Inr n"
| "ParseUint s0 n (c # cs) =
     (case digit_val c of
        None \<Rightarrow> Inl (NumError s0 ErrSyntax)
      | Some d \<Rightarrow>
          if 2 ^ 64 \<le> n * 10 + d then Inl (NumError s0 ErrRange)
          else ParseUint s0 (n * 10 + d) cs)"

definition Atoi :: "string \<Rightarrow> go_error + int" where
  "Atoi s =
     (let neg = (s \<noteq> [] \<and> hd s = CHR ''-'');
          digits = (if s \<noteq> [] \<and> (hd s = CHR ''-'' \<or> hd s = CHR ''+'') then tl s else s)
      in if digits = [] then Inl (NumError s ErrSyntax)
         else (case ParseUint s 0 digits of
                 Inl e \<Rightarrow> Inl e
               | Inr un \<Rightarrow>
                   if \<not> neg \<and> 2 ^ 63 \<le> un then Inl (NumError s ErrRange)
                   else if neg \<and> 2 ^ 63 < un then Inl (NumError s ErrRange)
                   else Inr (if neg then - un else un)))"

text \<open>
  \<^verbatim>\<open>hex.DecodeString\<close>: two hexadecimal digits (either case) per byte, read in
  pairs; the first bad digit is an \<^verbatim>\<open>InvalidByteError\<close>, a dangling last digit is
  \<^verbatim>\<open>ErrLength\<close>.
\<close>

definition fromHexChar :: "char \<Rightarrow> nat option" where
  "fromHexChar c =
     (let n = (of_char c :: nat) in
        if 48 \<le> n \<and> n \<le> 57 then Some (n - 48)
        else if 97 \<le> n \<and> n \<le> 102 then Some (n - 87)
        else if 65 \<le> n \<and> n \<le> 70 then Some (n - 55)
        else None)"

fun DecodeString :: "string \<Rightarrow> go_error + bytes" where
  "DecodeString [] = Inr []"
| "DecodeString [p] =
     (case fromHexChar p of None \<Rightarrow> Inl (InvalidByteError p) | Some a \<Rightarrow> Inl ErrLength)"
| "DecodeString (p # q # rest) =
     (case fromHexChar p of
        None \<Rightarrow> Inl (InvalidByteError p)
      | Some a \<Rightarrow>
          (case fromHexChar q of
             None \<Rightarrow> Inl (InvalidByteError q)
           | Some b \<Rightarrow>
               (case DecodeString rest of
                  Inl e \<Rightarrow> Inl e
                | Inr bs \<Rightarrow> Inr (char_of (16 * a + b) # bs))))"

subsection \<open>parseHeadersForProof\<close>

text \<open>
  \<^verbatim>\<open>http.Header\<close> is \<^verbatim>\<open>map[string][]string\<close>, keyed by canonical header names.
  \<^verbatim>\<open>headers.Get(k)\<close> canonicalises \<open>k\<close> and returns the first value, or the empty
  string: for \<^verbatim>\<open>"X-Verified-TreeSize"\<close> the canonical key is
  \<^verbatim>\<open>"X-Verified-Treesize"\<close>; \<^verbatim>\<open>"X-Verified-Proof"\<close> is canonical as written.
\<close>

type_synonym Header = "string \<rightharpoonup> string list"

definition Header_Get :: "Header \<Rightarrow> string \<Rightarrow> string" where
  "Header_Get headers k = (case headers k of None \<Rightarrow> [] | Some [] \<Rightarrow> [] | Some (v # _) \<Rightarrow> v)"

text \<open>
  The body of the inner loop, for one comma-separated piece: pieces without
  \<^verbatim>\<open>/\<close> are skipped, a bad index or bad hex returns the error, an index below 256
  stores the bytes. Go checks the index of \<^verbatim>\<open>prv[idx] = bs\<close> against
  \<open>0 \<le> idx < len(prv)\<close> and panics outside.
\<close>

definition proof_token :: "string \<Rightarrow> bytes list \<Rightarrow> bytes list result" where
  "proof_token commad prv =
     (let bits = SplitN2 CHR ''/'' commad in
      if length bits = 2 then
        (case Atoi (TrimSpace (bits ! 0)) of
           Inl err \<Rightarrow> Inl (Error err)
         | Inr idx \<Rightarrow>
             (case DecodeString (TrimSpace (bits ! 1)) of
                Inl err \<Rightarrow> Inl (Error err)
              | Inr bs \<Rightarrow>
                  if idx < 256 then
                    (if 0 \<le> idx \<and> nat idx < length prv then Inr (prv[nat idx := bs])
                     else Inl (Panic (IndexOutOfRange idx)))
                  else Inr prv))
      else Inr prv)"

fun proof_tokens :: "string list \<Rightarrow> bytes list \<Rightarrow> bytes list result" where
  "proof_tokens [] prv = Inr prv"
| "proof_tokens (commad # rest) prv =
     (case proof_token commad prv of
        Inl f \<Rightarrow> Inl f
      | Inr prv' \<Rightarrow> proof_tokens rest prv')"

fun proof_headers :: "string list \<Rightarrow> bytes list \<Rightarrow> bytes list result" where
  "proof_headers [] prv = Inr prv"
| "proof_headers (h # rest) prv =
     (case proof_tokens (Split CHR '','' h) prv of
        Inl f \<Rightarrow> Inl f
      | Inr prv' \<Rightarrow> proof_headers rest prv')"

definition parseHeadersForProof :: "Header \<Rightarrow> bytes list result" where
  "parseHeadersForProof headers =
     (let prv = replicate 256 [] in
      case headers ''X-Verified-Proof'' of
        Some actualHeaders \<Rightarrow> proof_headers actualHeaders prv
      | None \<Rightarrow> Inr prv)"

subsection \<open>Data model\<close>

text \<open>
  Modelled from the spec: the types \<^verbatim>\<open>LogTreeHead\<close>, \<^verbatim>\<open>MapTreeHead\<close>,
  \<^verbatim>\<open>MapTreeState\<close> and \<^verbatim>\<open>MapInclusionProof\<close> are declared outside \<^verbatim>\<open>map.go\<close>;
  their fields are the ones of the spec's data model, which are the ones \<^verbatim>\<open>map.go\<close>
  reads and writes. Tree sizes are \<^verbatim>\<open>int64\<close>; the code only compares them, so they
  are \<open>int\<close>. Field names that two Go structs share are told apart here:
  \<open>MapRootHash\<close> is \<^verbatim>\<open>MapTreeHead.RootHash\<close>, \<open>ProofTreeSize\<close> is
  \<^verbatim>\<open>MapInclusionProof.TreeSize\<close>, and \<open>MapTreeHead_of\<close> is the \<^verbatim>\<open>MapTreeHead\<close>
  embedded in a \<^verbatim>\<open>MapTreeState\<close>. The entry type \<^verbatim>\<open>VerifiableEntry\<close> is the
  type variable \<open>'v\<close>.
\<close>

record LogTreeHead =
  TreeSize :: int
  RootHash :: bytes

record MapTreeHead =
  MapRootHash :: bytes
  MutationLogTreeHead :: LogTreeHead

record MapTreeState =
  MapTreeHead_of :: MapTreeHead
  TreeHeadLogTreeHead :: LogTreeHead

record 'v MapInclusionProof =
  Value :: 'v
  ProofTreeSize :: int
  AuditPath :: "bytes list"
  Key :: bytes

text \<open>
  Modelled from the spec: the method \<^verbatim>\<open>TreeSize()\<close> of a \<^verbatim>\<open>MapTreeHead\<close> (and of
  the \<^verbatim>\<open>MapTreeState\<close> that embeds it) is defined outside \<^verbatim>\<open>map.go\<close>; the spec
  says that the map's size is defined as its mutation log's size.
\<close>

definition MapTreeHead_TreeSize :: "MapTreeHead \<Rightarrow> int" where
  "MapTreeHead_TreeSize h = TreeSize (MutationLogTreeHead h)"

definition MapTreeState_TreeSize :: "MapTreeState \<Rightarrow> int" where
  "MapTreeState_TreeSize st = MapTreeHead_TreeSize (MapTreeHead_of st)"

text \<open>
  Modelled from the spec: the constant \<^verbatim>\<open>Head\<close> is declared outside \<^verbatim>\<open>map.go\<close>; the
  spec gives the sentinel the value 0, the value \<^verbatim>\<open>VerifiedMapState\<close> tests its argument
  against.
\<close>

definition Head :: int where
  "Head = 0"

text \<open>
  The JSON body of a map head: \<^verbatim>\<open>mapHashResponse\<close> as declared in \<^verbatim>\<open>map.go\<close>, with
  \<^verbatim>\<open>LogSTH\<close> a pointer that stays nil when the body has no \<^verbatim>\<open>mutation_log\<close>; of
  \<^verbatim>\<open>treeSizeResponse\<close> (declared elsewhere) the two fields \<^verbatim>\<open>TreeHead\<close> reads.
\<close>

record treeSizeResponse =
  tsr_TreeSize :: int
  Hash :: bytes

record mapHashResponse =
  MapHash :: bytes
  LogSTH :: "treeSizeResponse option"

text \<open>
  The entry factory (\<^verbatim>\<open>VerifiableEntryFactory\<close>): the suffix it adds to the request
  path and its decoder.
\<close>

record 'v VerifiableEntryFactory =
  Format :: string
  CreateFromBytes :: "bytes \<Rightarrow> go_error + 'v"

subsection \<open>Collaborators and the trace of calls\<close>

text \<open>
  The two requests of the functions modelled here, by the arguments that
  \<^verbatim>\<open>fmt.Sprintf\<close> writes into the path: \<^verbatim>\<open>GET /tree/%d\<close> and
  \<^verbatim>\<open>GET /tree/%d/key/h/%s%s\<close> (tree size, key, format suffix).
\<close>

datatype request = GET_tree int | GET_key int bytes string

text \<open>
  Every call that leaves \<^verbatim>\<open>map.go\<close> is recorded, in order, in a trace: the
  transport's \<^verbatim>\<open>MakeRequest\<close>, the three operations of the log verifier, the proof's
  \<^verbatim>\<open>Verify\<close> and \<^verbatim>\<open>time.Sleep\<close> (nanoseconds, \<^verbatim>\<open>int64\<close>).
\<close>

datatype 'v event =
    EvMakeRequest request
  | EvVerifyConsistency LogTreeHead LogTreeHead
  | EvVerifyInclusion LogTreeHead MapTreeHead
  | EvVerifiedLatestTreeHead "LogTreeHead option"
  | EvVerify "'v MapInclusionProof" MapTreeHead
  | EvSleep "64 word"

text \<open>
  The server is untrusted and may answer the same call differently each time, so the
  answer of a collaborator that goes to the network is a function of the history (the
  trace up to the call) and of the arguments. The collaborators are taken to return as
  their Go signatures say (a value or an error). \<^verbatim>\<open>json.Unmarshal\<close> into a
  \<^verbatim>\<open>mapHashResponse\<close> is a function of the body. \<open>reconstruct_root\<close> is the hash
  arithmetic of the map inclusion proof, which the spec leaves to the Merkle library:
  the root recomputed from leaf, key and audit path, or \<open>None\<close> when an audit-path
  entry has an unexpected length.
\<close>

record 'v env =
  MakeRequest :: "'v event list \<Rightarrow> request \<Rightarrow> go_error + (bytes \<times> Header)"
  json_Unmarshal :: "bytes \<Rightarrow> go_error + mapHashResponse"
  MutationLog_VerifyConsistency ::
    "'v event list \<Rightarrow> LogTreeHead \<Rightarrow> LogTreeHead \<Rightarrow> go_error option"
  TreeHeadLog_VerifyInclusion ::
    "'v event list \<Rightarrow> LogTreeHead \<Rightarrow> MapTreeHead \<Rightarrow> go_error option"
  TreeHeadLog_VerifiedLatestTreeHead ::
    "'v event list \<Rightarrow> LogTreeHead option \<Rightarrow> go_error + LogTreeHead"
  reconstruct_root :: "'v MapInclusionProof \<Rightarrow> bytes option"

subsection \<open>Get and VerifiedGet\<close>

definition Get ::
  "'v env \<Rightarrow> bytes \<Rightarrow> int \<Rightarrow> 'v VerifiableEntryFactory \<Rightarrow> 'v event list
     \<Rightarrow> 'v MapInclusionProof result \<times> 'v event list" where
  "Get env key treeSize factory tr =
     (let req = GET_key treeSize key (Format factory); tr1 = tr @ [EvMakeRequest req] in
      case MakeRequest env tr req of
        Inl err \<Rightarrow> (Inl (Error err), tr1)
      | Inr (val, headers) \<Rightarrow>
          (case parseHeadersForProof headers of
             Inl f \<Rightarrow> (Inl f, tr1)
           | Inr prv \<Rightarrow>
               (case CreateFromBytes factory val of
                  Inl err \<Rightarrow> (Inl (Error err), tr1)
                | Inr rv \<Rightarrow>
                    (case Atoi (Header_Get headers ''X-Verified-Treesize'') of
                       Inl err \<Rightarrow> (Inl (Error err), tr1)
                     | Inr vts \<Rightarrow>
                         (Inr \<lparr>Value = rv, ProofTreeSize = vts, AuditPath = prv, Key = key\<rparr>,
                          tr1)))))"

text \<open>
  Modelled from the spec: \<^verbatim>\<open>MapInclusionProof.Verify\<close> is defined outside \<^verbatim>\<open>map.go\<close>.
  The spec's verifier rejects a proof whose declared tree size is not the trusted head's
  size, rejects an audit path that has not exactly 256 entries or has an entry of
  unexpected length, and otherwise compares the recomputed root with the trusted head's
  root hash; every failure is the spec's \<^verbatim>\<open>ProofMismatch\<close>, here
  \<open>ErrVerificationFailed\<close>.
\<close>

definition Verify :: "'v env \<Rightarrow> 'v MapInclusionProof \<Rightarrow> MapTreeHead \<Rightarrow> go_error option" where
  "Verify env proof head =
     (if ProofTreeSize proof \<noteq> MapTreeHead_TreeSize head then Some ErrVerificationFailed
      else if length (AuditPath proof) \<noteq> 256 then Some ErrVerificationFailed
      else (case reconstruct_root env proof of
              None \<Rightarrow> Some ErrVerificationFailed
            | Some t \<Rightarrow> if t = MapRootHash head then None else Some ErrVerificationFailed))"

text \<open>
  \<^verbatim>\<open>VerifiedGet\<close> takes a pointer to the trusted state; \<^verbatim>\<open>mapHead.TreeSize()\<close>
  dereferences it.
\<close>

definition VerifiedGet ::
  "'v env \<Rightarrow> bytes \<Rightarrow> MapTreeState option \<Rightarrow> 'v VerifiableEntryFactory \<Rightarrow> 'v event list
     \<Rightarrow> 'v result \<times> 'v event list" where
  "VerifiedGet env key mapHead factory tr =
     (case mapHead of
        None \<Rightarrow> (Inl (Panic NilDereference), tr)
      | Some st \<Rightarrow>
          (case Get env key (MapTreeState_TreeSize st) factory tr of
             (Inl f, tr1) \<Rightarrow> (Inl f, tr1)
           | (Inr proof, tr1) \<Rightarrow>
               (let tr2 = tr1 @ [EvVerify proof (MapTreeHead_of st)] in
                case Verify env proof (MapTreeHead_of st) of
                  Some err \<Rightarrow> (Inl (Error err), tr2)
                | None \<Rightarrow> (Inr (Value proof), tr2))))"

subsection \<open>TreeHead and BlockUntilSize\<close>

text \<open>
  \<^verbatim>\<open>cr.LogSTH.TreeSize\<close> dereferences the pointer that \<^verbatim>\<open>json.Unmarshal\<close> left.
\<close>

definition TreeHead ::
  "'v env \<Rightarrow> int \<Rightarrow> 'v event list \<Rightarrow> MapTreeHead result \<times> 'v event list" where
  "TreeHead env treeSize tr =
     (let req = GET_tree treeSize; tr1 = tr @ [EvMakeRequest req] in
      case MakeRequest env tr req of
        Inl err \<Rightarrow> (Inl (Error err), tr1)
      | Inr (contents, headers) \<Rightarrow>
          (case json_Unmarshal env contents of
             Inl err \<Rightarrow> (Inl (Error err), tr1)
           | Inr cr \<Rightarrow>
               (case LogSTH cr of
                  None \<Rightarrow> (Inl (Panic NilDereference), tr1)
                | Some sth \<Rightarrow>
                    (Inr \<lparr>MapRootHash = MapHash cr,
                          MutationLogTreeHead =
                            \<lparr>TreeSize = tsr_TreeSize sth, RootHash = Hash sth\<rparr>\<rparr>,
                     tr1))))"

text \<open>
  \<^verbatim>\<open>time.Second\<close> is \<open>10^9\<close> nanoseconds in an \<^verbatim>\<open>int64\<close>; \<^verbatim>\<open>timeToSleep *= 2\<close>
  wraps around. The loop has no bound: \<open>None\<close> is the call that never returns.
\<close>

definition Second :: "64 word" where
  "Second = 1000000000"

partial_function (option) BlockUntilSize_loop ::
  "'v env \<Rightarrow> int \<Rightarrow> int \<Rightarrow> 64 word \<Rightarrow> 'v event list
     \<Rightarrow> (MapTreeHead result \<times> 'v event list) option" where
  "BlockUntilSize_loop env treeSize lastHead timeToSleep tr =
     (case TreeHead env Head tr of
        (Inl f, tr1) \<Rightarrow> Some (Inl f, tr1)
      | (Inr lth, tr1) \<Rightarrow>
          if treeSize \<le> MapTreeHead_TreeSize lth then Some (Inr lth, tr1)
          else if lastHead < MapTreeHead_TreeSize lth
          then BlockUntilSize_loop env treeSize (MapTreeHead_TreeSize lth) Second
                 (tr1 @ [EvSleep Second])
          else BlockUntilSize_loop env treeSize lastHead (timeToSleep * 2)
                 (tr1 @ [EvSleep (timeToSleep * 2)]))"

definition BlockUntilSize ::
  "'v env \<Rightarrow> int \<Rightarrow> 'v event list \<Rightarrow> (MapTreeHead result \<times> 'v event list) option" where
  "BlockUntilSize env treeSize tr = BlockUntilSize_loop env treeSize (- 1) Second tr"

subsection \<open>VerifiedMapState and VerifiedLatestMapState\<close>

text \<open>
  The consistency step: with a previous state, the mutation log's new head must be
  consistent with the old one.
\<close>

definition consistency_step ::
  "'v env \<Rightarrow> MapTreeState option \<Rightarrow> MapTreeHead \<Rightarrow> 'v event list
     \<Rightarrow> go_error option \<times> 'v event list" where
  "consistency_step env prev mapHead tr =
     (case prev of
        None \<Rightarrow> (None, tr)
      | Some p \<Rightarrow>
          (MutationLog_VerifyConsistency env tr
             (MutationLogTreeHead (MapTreeHead_of p)) (MutationLogTreeHead mapHead),
           tr @ [EvVerifyConsistency
                   (MutationLogTreeHead (MapTreeHead_of p)) (MutationLogTreeHead mapHead)]))"

text \<open>
  The short-cut: a previous tree-head-log head that is at least as large as the map is
  tried first; the result is the head that verified (\<^verbatim>\<open>verifiedInTreeHeadLog\<close> with
  \<^verbatim>\<open>thlth\<close>), or \<open>None\<close>, and the error of a failed attempt is dropped.
\<close>

definition shortcut_step ::
  "'v env \<Rightarrow> LogTreeHead option \<Rightarrow> MapTreeHead \<Rightarrow> 'v event list
     \<Rightarrow> LogTreeHead option \<times> 'v event list" where
  "shortcut_step env prevThlth mapHead tr =
     (case prevThlth of
        None \<Rightarrow> (None, tr)
      | Some pt \<Rightarrow>
          if MapTreeHead_TreeSize mapHead \<le> TreeSize pt then
            (case TreeHeadLog_VerifyInclusion env tr pt mapHead of
               None \<Rightarrow> (Some pt, tr @ [EvVerifyInclusion pt mapHead])
             | Some err \<Rightarrow> (None, tr @ [EvVerifyInclusion pt mapHead]))
          else (None, tr))"

text \<open>Normal processing: fetch a new verified tree head and check inclusion in it.\<close>

definition normal_step ::
  "'v env \<Rightarrow> LogTreeHead option \<Rightarrow> MapTreeHead \<Rightarrow> 'v event list
     \<Rightarrow> LogTreeHead result \<times> 'v event list" where
  "normal_step env prevThlth mapHead tr =
     (let tr1 = tr @ [EvVerifiedLatestTreeHead prevThlth] in
      case TreeHeadLog_VerifiedLatestTreeHead env tr prevThlth of
        Inl err \<Rightarrow> (Inl (Error err), tr1)
      | Inr thlth \<Rightarrow>
          (let tr2 = tr1 @ [EvVerifyInclusion thlth mapHead] in
           case TreeHeadLog_VerifyInclusion env tr1 thlth mapHead of
             Some err \<Rightarrow> (Inl (Error err), tr2)
           | None \<Rightarrow> (Inr thlth, tr2)))"

text \<open>
  \<^verbatim>\<open>VerifiedMapState\<close>: the early return of \<open>prev\<close>, then the fetch of the map head,
  the consistency step, the short-cut and, when it did not verify, normal processing.
  \<^verbatim>\<open>prev.TreeSize()\<close> is only evaluated behind \<^verbatim>\<open>prev != nil\<close>.
\<close>

definition VerifiedMapState ::
  "'v env \<Rightarrow> MapTreeState option \<Rightarrow> int \<Rightarrow> 'v event list
     \<Rightarrow> MapTreeState result \<times> 'v event list" where
  "VerifiedMapState env prev treeSize tr =
     (if treeSize \<noteq> 0 \<and> prev \<noteq> None \<and> MapTreeState_TreeSize (the prev) = treeSize
      then (Inr (the prev), tr)
      else
        (case TreeHead env treeSize tr of
           (Inl f, tr1) \<Rightarrow> (Inl f, tr1)
         | (Inr mapHead, tr1) \<Rightarrow>
             (case consistency_step env prev mapHead tr1 of
                (Some err, tr2) \<Rightarrow> (Inl (Error err), tr2)
              | (None, tr2) \<Rightarrow>
                  (let prevThlth = map_option TreeHeadLogTreeHead prev in
                   case shortcut_step env prevThlth mapHead tr2 of
                     (Some thlth, tr3) \<Rightarrow>
                       (Inr \<lparr>MapTreeHead_of = mapHead, TreeHeadLogTreeHead = thlth\<rparr>, tr3)
                   | (None, tr3) \<Rightarrow>
                       (case normal_step env prevThlth mapHead tr3 of
                          (Inl f, tr4) \<Rightarrow> (Inl f, tr4)
                        | (Inr thlth, tr4) \<Rightarrow>
                            (Inr \<lparr>MapTreeHead_of = mapHead, TreeHeadLogTreeHead = thlth\<rparr>,
                             tr4))))))"

definition VerifiedLatestMapState ::
  "'v env \<Rightarrow> MapTreeState option \<Rightarrow> 'v event list
     \<Rightarrow> MapTreeState result \<times> 'v event list" where
  "VerifiedLatestMapState env prev tr =
     (case VerifiedMapState env prev Head tr of
        (Inl f, tr1) \<Rightarrow> (Inl f, tr1)
      | (Inr head, tr1) \<Rightarrow>
          (case prev of
             Some p \<Rightarrow>
               if MapTreeState_TreeSize head \<le> MapTreeState_TreeSize p then (Inr p, tr1)
               else (Inr head, tr1)
           | None \<Rightarrow> (Inr head, tr1)))"

subsection \<open>Vocabulary of the statements\<close>

text \<open>
  One comma-separated piece of the audit-path header, as the parser reads it: the index
  is the trimmed text before the first \<^verbatim>\<open>/\<close>, the hex bytes the trimmed text after it.
  \<open>token_error\<close> is the decode error of a piece that has a \<^verbatim>\<open>/\<close> (a bad index, or a
  good index with bad hex), \<open>token_index\<close> the index of a piece whose index parses.
  A piece is \<open>harmless\<close> when it has no decode error and no negative index.
\<close>

definition index_part :: "string \<Rightarrow> string" where
  "index_part t = TrimSpace (takeWhile (\<lambda>c. c \<noteq> CHR ''/'') t)"

definition hex_part :: "string \<Rightarrow> string" where
  "hex_part t = TrimSpace (tl (dropWhile (\<lambda>c. c \<noteq> CHR ''/'') t))"

definition token_error :: "string \<Rightarrow> go_error option" where
  "token_error t =
     (if CHR ''/'' \<in> set t then
        (case Atoi (index_part t) of
           Inl e \<Rightarrow> Some e
         | Inr idx \<Rightarrow> (case DecodeString (hex_part t) of Inl e \<Rightarrow> Some e | Inr bs \<Rightarrow> None))
      else None)"

definition token_index :: "string \<Rightarrow> int option" where
  "token_index t =
     (if CHR ''/'' \<in> set t then
        (case Atoi (index_part t) of Inl e \<Rightarrow> None | Inr idx \<Rightarrow> Some idx)
      else None)"

definition harmless :: "string \<Rightarrow> bool" where
  "harmless t =
     (token_error t = None \<and> (case token_index t of None \<Rightarrow> True | Some idx \<Rightarrow> 0 \<le> idx))"

text \<open>The decode errors: those of \<^verbatim>\<open>strconv.Atoi\<close> and of \<^verbatim>\<open>hex.DecodeString\<close>.\<close>

fun is_decode_error :: "go_error \<Rightarrow> bool" where
  "is_decode_error (NumError s k) = True"
| "is_decode_error ErrLength = True"
| "is_decode_error (InvalidByteError c) = True"
| "is_decode_error e = False"

text \<open>
  The number of requests in a trace, and a server whose answers to the requests number
  \<open>k\<close>, \<open>k + 1\<close>, ... (counted over the whole history), when they ask for the latest
  map head, are the heads \<open>hs\<close>.
\<close>

fun is_request :: "'v event \<Rightarrow> bool" where
  "is_request (EvMakeRequest req) = True"
| "is_request e = False"

definition requests_in :: "'v event list \<Rightarrow> nat" where
  "requests_in tr = length (filter is_request tr)"

definition polls_answered :: "'v env \<Rightarrow> nat \<Rightarrow> MapTreeHead list \<Rightarrow> bool" where
  "polls_answered env k hs =
     (\<forall>tr i. i < length hs \<longrightarrow> requests_in tr = k + i \<longrightarrow>
        TreeHead env Head tr = (Inr (hs ! i), tr @ [EvMakeRequest (GET_tree Head)]))"

text \<open>
  The wait intervals of the polling loop for a sequence of observed sizes that are all
  below the target, from the largest size seen so far and the current interval: one
  second when the size exceeds the largest seen, twice the current interval (in
  \<^verbatim>\<open>int64\<close> nanoseconds) otherwise. \<open>poll_trace\<close> is the trace of these rounds: a fetch
  of the latest head, then the sleep.
\<close>

fun wait_intervals :: "int \<Rightarrow> 64 word \<Rightarrow> int list \<Rightarrow> 64 word list" where
  "wait_intervals largest wait [] = []"
| "wait_intervals largest wait (n # ns) =
     (if largest < n then Second # wait_intervals n Second ns
      else (wait * 2) # wait_intervals largest (wait * 2) ns)"

fun poll_trace :: "64 word list \<Rightarrow> 'v event list" where
  "poll_trace [] = []"
| "poll_trace (d # ds) = EvMakeRequest (GET_tree Head) # EvSleep d # poll_trace ds"

subsection \<open>Example servers\<close>

text \<open>
  A map head of size \<open>n\<close>, a trusted state of map size \<open>n\<close> and tree-head-log size \<open>m\<close>,
  the factory of raw entries, and a server: it answers the \<open>i\<close>-th request, when it asks
  for a map head, with a one-byte body holding \<open>sizes ! i\<close> (the example decoder reads
  the size back), and a key lookup with the entry \<^verbatim>\<open>v\<close> and the headers \<open>hdrs\<close>; the
  consistency check answers \<open>cons\<close>, the inclusion check \<open>incl\<close> of the log head it is
  given, and the latest tree-head-log head has size 20.
\<close>

definition ex_head :: "int \<Rightarrow> MapTreeHead" where
  "ex_head n = \<lparr>MapRootHash = ''r'', MutationLogTreeHead = \<lparr>TreeSize = n, RootHash = ''m''\<rparr>\<rparr>"

definition ex_log_head :: "int \<Rightarrow> LogTreeHead" where
  "ex_log_head m = \<lparr>TreeSize = m, RootHash = ''t''\<rparr>"

definition ex_state :: "int \<Rightarrow> int \<Rightarrow> MapTreeState" where
  "ex_state n m = \<lparr>MapTreeHead_of = ex_head n, TreeHeadLogTreeHead = ex_log_head m\<rparr>"

definition ex_factory :: "bytes VerifiableEntryFactory" where
  "ex_factory = \<lparr>Format = [], CreateFromBytes = Inr\<rparr>"

definition ex_env ::
  "int list \<Rightarrow> go_error option \<Rightarrow> (LogTreeHead \<Rightarrow> go_error option) \<Rightarrow> Header \<Rightarrow> bytes env" where
  "ex_env sizes cons incl hdrs =
     \<lparr>MakeRequest = (\<lambda>tr req.
        case req of
          GET_tree n \<Rightarrow>
            if requests_in tr < length sizes
            then Inr ([char_of (sizes ! requests_in tr)], Map.empty)
            else Inl (Opaque 0)
        | GET_key n k f \<Rightarrow> Inr (''v'', hdrs)),
      json_Unmarshal = (\<lambda>body.
        case body of
          [c] \<Rightarrow> Inr \<lparr>MapHash = ''r'', LogSTH = Some \<lparr>tsr_TreeSize = of_char c, Hash = ''m''\<rparr>\<rparr>
        | _ \<Rightarrow> Inl (Opaque 1)),
      MutationLog_VerifyConsistency = (\<lambda>tr old new. cons),
      TreeHeadLog_VerifyInclusion = (\<lambda>tr h m. incl h),
      TreeHeadLog_VerifiedLatestTreeHead = (\<lambda>tr prev. Inr (ex_log_head 20)),
      reconstruct_root = (\<lambda>p. Some ''r'')\<rparr>"

section \<open>Facts about the model\<close>

subsection \<open>The head fetch and the example server\<close>

lemma TreeHead_trace:
  "TreeHead env treeSize tr = (r, tr1) \<Longrightarrow> tr1 = tr @ [EvMakeRequest (GET_tree treeSize)]"
  by (auto simp: TreeHead_def Let_def split: sum.splits prod.splits option.splits)

lemma ex_TreeHead:
  "requests_in tr < length sizes \<Longrightarrow> 0 \<le> sizes ! requests_in tr \<Longrightarrow>
   sizes ! requests_in tr < 256 \<Longrightarrow>
   TreeHead (ex_env sizes cons incl hdrs) n tr =
     (Inr (ex_head (sizes ! requests_in tr)), tr @ [EvMakeRequest (GET_tree n)])"
  by (simp add: TreeHead_def ex_env_def ex_head_def)

lemma ex_sizes [simp]:
  "MapTreeHead_TreeSize (ex_head n) = n"
  "MapTreeState_TreeSize (ex_state n m) = n"
  "MapTreeHead_of (ex_state n m) = ex_head n"
  "TreeHeadLogTreeHead (ex_state n m) = ex_log_head m"
  "TreeSize (ex_log_head m) = m"
  "TreeSize (MutationLogTreeHead (ex_head n)) = n"
  by (simp_all add: MapTreeState_TreeSize_def MapTreeHead_TreeSize_def ex_state_def
      ex_head_def ex_log_head_def)

lemma ex_calls [simp]:
  "MutationLog_VerifyConsistency (ex_env sizes cons incl hdrs) tr a b = cons"
  "TreeHeadLog_VerifyInclusion (ex_env sizes cons incl hdrs) tr h m = incl h"
  "TreeHeadLog_VerifiedLatestTreeHead (ex_env sizes cons incl hdrs) tr prev =
     Inr (ex_log_head 20)"
  "MakeRequest (ex_env sizes cons incl hdrs) tr (GET_key n k f) = Inr (''v'', hdrs)"
  "reconstruct_root (ex_env sizes cons incl hdrs) p = Some ''r''"
  by (simp_all add: ex_env_def)

lemma ex_state_eq:
  "\<lparr>MapTreeHead_of = ex_head n, TreeHeadLogTreeHead = ex_log_head m\<rparr> = ex_state n m"
  by (simp add: ex_state_def)

lemma ex_factory_simps [simp]:
  "Format ex_factory = []"
  "CreateFromBytes ex_factory val = Inr val"
  by (simp_all add: ex_factory_def)

text \<open>
  A lagging replica: the trusted state has map size 5 and tree-head-log size 9, the
  server reports a latest head of size 3 that passes every check.
\<close>

lemma ex_lagging:
  "VerifiedMapState (ex_env [3] None (\<lambda>h. None) Map.empty) (Some (ex_state 5 9)) Head [] =
     (Inr (ex_state 3 9),
      [EvMakeRequest (GET_tree 0),
       EvVerifyConsistency (MutationLogTreeHead (ex_head 5)) (MutationLogTreeHead (ex_head 3)),
       EvVerifyInclusion (ex_log_head 9) (ex_head 3)])"
  by (simp add: VerifiedMapState_def Head_def ex_TreeHead requests_in_def consistency_step_def
      shortcut_step_def ex_state_eq)

subsection \<open>The audit-path parser\<close>

text \<open>
  The rounds that \<open>TrimSpace\<close> allows are enough: no white space is left at the end
  that was trimmed.
\<close>

lemma leading_space_le: "leading_space s \<le> length s"
proof (cases "find (\<lambda>w. take (length w) s = w) white_space")
  case None
  then show ?thesis by (simp add: leading_space_def)
next
  case (Some w)
  then have "take (length w) s = w"
    by (auto simp: find_Some_iff)
  then have "length (take (length w) s) = length w"
    by simp
  then have "length w \<le> length s"
    by simp
  with Some show ?thesis by (simp add: leading_space_def)
qed

lemma TrimLeft_done: "length s \<le> n \<Longrightarrow> leading_space (TrimLeft n s) = 0"
proof (induction n arbitrary: s)
  case 0
  then show ?case by (simp add: leading_space_def white_space_def)
next
  case (Suc n)
  show ?case
  proof (cases "leading_space s = 0")
    case True
    then show ?thesis by simp
  next
    case False
    with Suc.prems leading_space_le [of s] have "length (drop (leading_space s) s) \<le> n"
      by simp
    with False Suc.IH show ?thesis by simp
  qed
qed

lemma trailing_space_le: "trailing_space s \<le> length s"
  by (auto simp: trailing_space_def find_Some_iff split: option.splits)

lemma TrimRight_done: "length s \<le> n \<Longrightarrow> trailing_space (TrimRight n s) = 0"
proof (induction n arbitrary: s)
  case 0
  then show ?case by (simp add: trailing_space_def white_space_def)
next
  case (Suc n)
  show ?case
  proof (cases "trailing_space s = 0")
    case True
    then show ?thesis by simp
  next
    case False
    with Suc.prems trailing_space_le [of s]
    have "length (take (length s - trailing_space s) s) \<le> n"
      by simp
    with False Suc.IH show ?thesis by simp
  qed
qed

lemma proof_token_no_slash:
  "CHR ''/'' \<notin> set t \<Longrightarrow> proof_token t prv = Inr prv"
  by (simp add: proof_token_def SplitN2_def)

lemma proof_token_slash:
  "CHR ''/'' \<in> set t \<Longrightarrow>
   proof_token t prv =
     (case Atoi (index_part t) of
        Inl err \<Rightarrow> Inl (Error err)
      | Inr idx \<Rightarrow>
          (case DecodeString (hex_part t) of
             Inl err \<Rightarrow> Inl (Error err)
           | Inr bs \<Rightarrow>
               if idx < 256 then
                 (if 0 \<le> idx \<and> nat idx < length prv then Inr (prv[nat idx := bs])
                  else Inl (Panic (IndexOutOfRange idx)))
               else Inr prv))"
  by (simp add: proof_token_def SplitN2_def index_part_def hex_part_def cong: sum.case_cong)

text \<open>
  A well-formed piece, on a path of 256 entries: a negative index panics, an index below
  256 stores the bytes (a later piece with the same index overwrites them), a larger
  index leaves the path as it is.
\<close>

lemma proof_token_well_formed:
  assumes "CHR ''/'' \<in> set t" and "Atoi (index_part t) = Inr idx"
    and "DecodeString (hex_part t) = Inr bs" and "length prv = 256"
  shows "proof_token t prv =
           (if idx < 0 then Inl (Panic (IndexOutOfRange idx))
            else if idx < 256 then Inr (prv[nat idx := bs])
            else Inr prv)"
  using assms by (auto simp: proof_token_slash)

lemma proof_token_length:
  "proof_token t prv = Inr prv' \<Longrightarrow> length prv' = length prv"
  by (cases "CHR ''/'' \<in> set t")
    (auto simp: proof_token_no_slash proof_token_slash split: sum.splits if_splits)

lemma proof_tokens_length:
  "proof_tokens ts prv = Inr prv' \<Longrightarrow> length prv' = length prv"
proof (induction ts arbitrary: prv)
  case Nil
  then show ?case by simp
next
  case (Cons t ts)
  then show ?case
    by (auto split: sum.splits dest: proof_token_length)
qed

lemma proof_headers_length:
  "proof_headers hs prv = Inr prv' \<Longrightarrow> length prv' = length prv"
proof (induction hs arbitrary: prv)
  case Nil
  then show ?case by simp
next
  case (Cons h hs)
  then show ?case
    by (auto split: sum.splits dest: proof_tokens_length)
qed

lemma parseHeadersForProof_length:
  "parseHeadersForProof headers = Inr prv \<Longrightarrow> length prv = 256"
  by (auto simp: parseHeadersForProof_def Let_def split: option.splits dest: proof_headers_length)

lemma proof_tokens_append:
  "proof_tokens (xs @ ys) prv =
     (case proof_tokens xs prv of Inl f \<Rightarrow> Inl f | Inr prv' \<Rightarrow> proof_tokens ys prv')"
  by (induction xs arbitrary: prv) (auto split: sum.splits)

lemma proof_headers_concat:
  "proof_headers hs prv = proof_tokens (concat (map (Split CHR '','') hs)) prv"
  by (induction hs arbitrary: prv) (auto simp: proof_tokens_append split: sum.splits)

lemma proof_token_harmless:
  assumes "harmless t" and "length prv = 256"
  shows "\<exists>prv'. proof_token t prv = Inr prv' \<and> length prv' = 256"
proof (cases "CHR ''/'' \<in> set t")
  case False
  with assms show ?thesis by (simp add: proof_token_no_slash)
next
  case True
  with assms show ?thesis
    by (auto simp: proof_token_slash harmless_def token_error_def token_index_def
        split: sum.splits)
qed

lemma proof_token_error:
  "token_error t = Some e \<Longrightarrow> proof_token t prv = Inl (Error e)"
  by (cases "CHR ''/'' \<in> set t")
    (auto simp: proof_token_slash token_error_def split: sum.splits)

lemma proof_tokens_stop:
  assumes "\<forall>c \<in> set pre. harmless c" and "token_error t = Some e" and "length prv = 256"
  shows "proof_tokens (pre @ t # post) prv = Inl (Error e)"
  using assms
proof (induction pre arbitrary: prv)
  case Nil
  then show ?case by (simp add: proof_token_error)
next
  case (Cons c pre)
  from Cons.prems obtain prv' where "proof_token c prv = Inr prv'" "length prv' = 256"
    using proof_token_harmless [of c prv] by auto
  with Cons show ?case by simp
qed

lemma ParseUint_error: "ParseUint s0 n cs = Inl e \<Longrightarrow> \<exists>k. e = NumError s0 k"
  by (induction cs arbitrary: n) (auto split: option.splits if_splits)

lemma Atoi_error: "Atoi s = Inl e \<Longrightarrow> \<exists>k. e = NumError s k"
  by (auto simp: Atoi_def Let_def split: if_splits sum.splits dest: ParseUint_error)

lemma DecodeString_error:
  "DecodeString s = Inl e \<Longrightarrow> e = ErrLength \<or> (\<exists>c. e = InvalidByteError c)"
  by (induction s arbitrary: e rule: DecodeString.induct) (auto split: option.splits sum.splits)

lemma token_error_decode: "token_error t = Some e \<Longrightarrow> is_decode_error e"
  by (auto simp: token_error_def split: if_splits sum.splits
      dest!: Atoi_error DecodeString_error)

lemma Atoi_5: "Atoi ''5'' = Inr 5"
  by (simp add: Atoi_def digit_val_def)

lemma Atoi_4: "Atoi ''4'' = Inr 4"
  by (simp add: Atoi_def digit_val_def)

lemmas parser_eval =
  parseHeadersForProof_def proof_token_def SplitN2_def TrimSpace_def leading_space_def
  trailing_space_def white_space_def Atoi_def digit_val_def fromHexChar_def

lemmas token_eval =
  harmless_def token_error_def token_index_def index_part_def hex_part_def TrimSpace_def
  leading_space_def trailing_space_def white_space_def Atoi_def digit_val_def fromHexChar_def

lemma ex_Get_size_4:
  "Get (ex_env [] None (\<lambda>h. None) [''X-Verified-Treesize'' \<mapsto> [''4'']]) ''k''
     (MapTreeState_TreeSize (ex_state 5 9)) ex_factory [] =
     (Inr \<lparr>Value = ''v'', ProofTreeSize = 4, AuditPath = replicate 256 [], Key = ''k''\<rparr>,
      [EvMakeRequest (GET_key 5 ''k'' [])])"
  by (simp add: Get_def parseHeadersForProof_def Header_Get_def Atoi_4)

subsection \<open>The polling loop\<close>

lemma requests_in_simps [simp]:
  "requests_in [] = 0"
  "requests_in (tr @ tr') = requests_in tr + requests_in tr'"
  "requests_in (EvMakeRequest req # tr) = Suc (requests_in tr)"
  "requests_in (EvSleep d # tr) = requests_in tr"
  by (simp_all add: requests_in_def)

lemma polls_answered_head:
  "polls_answered env k (h # hs) \<Longrightarrow> requests_in tr = k \<Longrightarrow>
   TreeHead env Head tr = (Inr h, tr @ [EvMakeRequest (GET_tree Head)])"
  by (auto simp: polls_answered_def dest: spec [where x = tr] spec [where x = 0])

lemma polls_answered_tail:
  assumes "polls_answered env k (h # hs)"
  shows "polls_answered env (Suc k) hs"
  unfolding polls_answered_def
proof (intro allI impI)
  fix tr :: "'a event list" and i
  assume "i < length hs" and "requests_in tr = Suc k + i"
  then have "Suc i < length (h # hs)" and "requests_in tr = k + Suc i"
    by simp_all
  with assms have "TreeHead env Head tr =
      (Inr ((h # hs) ! Suc i), tr @ [EvMakeRequest (GET_tree Head)])"
    unfolding polls_answered_def by blast
  then show "TreeHead env Head tr = (Inr (hs ! i), tr @ [EvMakeRequest (GET_tree Head)])"
    by simp
qed

lemma BlockUntilSize_loop_returns:
  assumes "polls_answered env (requests_in tr) (hs @ [h])"
    and "\<forall>x \<in> set hs. MapTreeHead_TreeSize x < target"
    and "target \<le> MapTreeHead_TreeSize h"
  shows "BlockUntilSize_loop env target largest wait tr =
           Some (Inr h,
                 tr @ poll_trace (wait_intervals largest wait (map MapTreeHead_TreeSize hs)) @
                   [EvMakeRequest (GET_tree Head)])"
  using assms
proof (induction hs arbitrary: tr largest wait)
  case Nil
  then have "TreeHead env Head tr = (Inr h, tr @ [EvMakeRequest (GET_tree Head)])"
    by (simp add: polls_answered_head)
  with Nil show ?case
    by (subst BlockUntilSize_loop.simps) simp
next
  case (Cons x hs)
  let ?tr1 = "tr @ [EvMakeRequest (GET_tree Head)]"
  from Cons.prems have fetch: "TreeHead env Head tr = (Inr x, ?tr1)"
    by (simp add: polls_answered_head)
  from Cons.prems have small: "\<not> target \<le> MapTreeHead_TreeSize x"
    by simp
  have rest: "polls_answered env (requests_in (?tr1 @ [EvSleep d])) (hs @ [h])" for d
    using polls_answered_tail [of env "requests_in tr" x "hs @ [h]"] Cons.prems(1) by simp
  have step: "BlockUntilSize_loop env target l w
        (tr @ [EvMakeRequest (GET_tree Head), EvSleep d]) =
      Some (Inr h, tr @ EvMakeRequest (GET_tree Head) # EvSleep d #
        poll_trace (wait_intervals l w (map MapTreeHead_TreeSize hs)) @
        [EvMakeRequest (GET_tree Head)])" for l w d
    using Cons.IH [OF rest, of l w d] Cons.prems by simp
  show ?case
    by (subst BlockUntilSize_loop.simps) (simp add: fetch small step)
qed

lemma ex_polls_answered:
  assumes "\<forall>n \<in> set sizes. 0 \<le> n \<and> n < 256"
  shows "polls_answered (ex_env sizes cons incl hdrs) 0 (map ex_head sizes)"
  unfolding polls_answered_def
proof (intro allI impI)
  fix tr :: "bytes event list" and i
  assume i: "i < length (map ex_head sizes)" and n: "requests_in tr = 0 + i"
  then have "sizes ! requests_in tr \<in> set sizes"
    by simp
  with assms have "0 \<le> sizes ! requests_in tr" "sizes ! requests_in tr < 256"
    by auto
  with i n show "TreeHead (ex_env sizes cons incl hdrs) Head tr =
      (Inr (map ex_head sizes ! i), tr @ [EvMakeRequest (GET_tree Head)])"
    by (simp add: ex_TreeHead)
qed

section \<open>The claims\<close>

subsection \<open>The reconciler\<close>

text \<open>
  C1. With a previous state \<open>p\<close>, once the early return is not taken and the map head
  \<open>mapHead\<close> has been fetched: if the consistency check of the mutation log
  (\<open>p\<close>'s mutation-log head against \<open>mapHead\<close>'s) fails with \<open>err\<close>, then
  \<^verbatim>\<open>VerifiedMapState\<close> returns exactly \<open>err\<close> and no state, and the calls it made are
  the fetch and the consistency check, in this order: no inclusion check follows.
\<close>

theorem VerifiedMapState_consistency_failure:
  assumes "\<not> (treeSize \<noteq> 0 \<and> MapTreeState_TreeSize p = treeSize)"
    and "TreeHead env treeSize tr = (Inr mapHead, tr1)"
    and "MutationLog_VerifyConsistency env tr1
           (MutationLogTreeHead (MapTreeHead_of p)) (MutationLogTreeHead mapHead) = Some err"
  shows "VerifiedMapState env (Some p) treeSize tr =
           (Inl (Error err),
            tr @ [EvMakeRequest (GET_tree treeSize),
                  EvVerifyConsistency (MutationLogTreeHead (MapTreeHead_of p))
                    (MutationLogTreeHead mapHead)])"
proof -
  have tr1: "tr1 = tr @ [EvMakeRequest (GET_tree treeSize)]"
    using assms(2) by (rule TreeHead_trace)
  show ?thesis
    using assms tr1 by (simp add: VerifiedMapState_def consistency_step_def)
qed

theorem VerifiedMapState_consistency_failure_witness:
  "\<not> ((7::int) \<noteq> 0 \<and> MapTreeState_TreeSize (ex_state 5 9) = 7) \<and>
   TreeHead (ex_env [7] (Some (Opaque 2)) (\<lambda>h. None) Map.empty) 7 [] =
     (Inr (ex_head 7), [EvMakeRequest (GET_tree 7)]) \<and>
   MutationLog_VerifyConsistency (ex_env [7] (Some (Opaque 2)) (\<lambda>h. None) Map.empty)
     [EvMakeRequest (GET_tree 7)]
     (MutationLogTreeHead (MapTreeHead_of (ex_state 5 9))) (MutationLogTreeHead (ex_head 7)) =
     Some (Opaque 2) \<and>
   VerifiedMapState (ex_env [7] (Some (Opaque 2)) (\<lambda>h. None) Map.empty)
     (Some (ex_state 5 9)) 7 [] =
     (Inl (Error (Opaque 2)),
      [EvMakeRequest (GET_tree 7),
       EvVerifyConsistency (MutationLogTreeHead (ex_head 5)) (MutationLogTreeHead (ex_head 7))])"
proof -
  let ?E = "ex_env [7] (Some (Opaque 2)) (\<lambda>h. None) Map.empty"
  have slow: "\<not> ((7::int) \<noteq> 0 \<and> MapTreeState_TreeSize (ex_state 5 9) = 7)"
    by simp
  have fetch: "TreeHead ?E 7 [] = (Inr (ex_head 7), [EvMakeRequest (GET_tree 7)])"
    by (simp add: ex_TreeHead requests_in_def)
  have bad: "MutationLog_VerifyConsistency ?E [EvMakeRequest (GET_tree 7)]
      (MutationLogTreeHead (MapTreeHead_of (ex_state 5 9))) (MutationLogTreeHead (ex_head 7)) =
      Some (Opaque 2)"
    by simp
  from VerifiedMapState_consistency_failure [OF slow fetch bad] slow fetch bad
  show ?thesis by simp
qed

text \<open>
  C2. With a previous state \<open>p\<close>, after the fetch of \<open>mapHead\<close> and a passed
  consistency check, when \<open>p\<close>'s tree-head-log head is at least as large as \<open>mapHead\<close>:
  if the inclusion check against \<open>p\<close>'s tree-head-log head passes, the result reuses
  that head and the trace ends with this check (no fetch of a tree-head-log head);
  if it fails with any error \<open>e\<close>, the result does not depend on \<open>e\<close>: the verified latest
  head is fetched, seeded with \<open>p\<close>'s tree-head-log head; when this fetch fails its own
  error is returned, and otherwise the inclusion check is made against the fetched head
  and the error of this second check, if any, is returned.
\<close>

theorem VerifiedMapState_shortcut:
  assumes slow: "\<not> (treeSize \<noteq> 0 \<and> MapTreeState_TreeSize p = treeSize)"
    and fetch: "TreeHead env treeSize tr = (Inr mapHead, tr1)"
    and cons: "MutationLog_VerifyConsistency env tr1
                 (MutationLogTreeHead (MapTreeHead_of p)) (MutationLogTreeHead mapHead) = None"
    and tr2: "tr2 = tr1 @ [EvVerifyConsistency (MutationLogTreeHead (MapTreeHead_of p))
                            (MutationLogTreeHead mapHead)]"
    and large: "MapTreeHead_TreeSize mapHead \<le> TreeSize (TreeHeadLogTreeHead p)"
    and tr3: "tr3 = tr2 @ [EvVerifyInclusion (TreeHeadLogTreeHead p) mapHead]"
    and tr4: "tr4 = tr3 @ [EvVerifiedLatestTreeHead (Some (TreeHeadLogTreeHead p))]"
  shows "(TreeHeadLog_VerifyInclusion env tr2 (TreeHeadLogTreeHead p) mapHead = None \<longrightarrow>
            VerifiedMapState env (Some p) treeSize tr =
              (Inr \<lparr>MapTreeHead_of = mapHead, TreeHeadLogTreeHead = TreeHeadLogTreeHead p\<rparr>, tr3)) \<and>
         (\<forall>e.
            TreeHeadLog_VerifyInclusion env tr2 (TreeHeadLogTreeHead p) mapHead = Some e \<longrightarrow>
            VerifiedMapState env (Some p) treeSize tr =
              (case TreeHeadLog_VerifiedLatestTreeHead env tr3 (Some (TreeHeadLogTreeHead p)) of
                 Inl e1 \<Rightarrow> (Inl (Error e1), tr4)
               | Inr thlth \<Rightarrow>
                   (case TreeHeadLog_VerifyInclusion env tr4 thlth mapHead of
                      None \<Rightarrow>
                        (Inr \<lparr>MapTreeHead_of = mapHead, TreeHeadLogTreeHead = thlth\<rparr>,
                         tr4 @ [EvVerifyInclusion thlth mapHead])
                    | Some e2 \<Rightarrow>
                        (Inl (Error e2), tr4 @ [EvVerifyInclusion thlth mapHead]))))"
  using assms
  by (auto simp: VerifiedMapState_def consistency_step_def shortcut_step_def normal_step_def
      Let_def split: option.splits sum.splits)

theorem VerifiedMapState_shortcut_witness:
  "MapTreeHead_TreeSize (ex_head 3) \<le> TreeSize (TreeHeadLogTreeHead (ex_state 5 9)) \<and>
   TreeHead (ex_env [3] None (\<lambda>h. None) Map.empty) 0 [] =
     (Inr (ex_head 3), [EvMakeRequest (GET_tree 0)]) \<and>
   VerifiedMapState (ex_env [3] None (\<lambda>h. None) Map.empty) (Some (ex_state 5 9)) 0 [] =
     (Inr (ex_state 3 9),
      [EvMakeRequest (GET_tree 0),
       EvVerifyConsistency (MutationLogTreeHead (ex_head 5)) (MutationLogTreeHead (ex_head 3)),
       EvVerifyInclusion (ex_log_head 9) (ex_head 3)]) \<and>
   VerifiedMapState
     (ex_env [3] None (\<lambda>h. if TreeSize h = 9 then Some (Opaque 3) else None) Map.empty)
     (Some (ex_state 5 9)) 0 [] =
     (Inr (ex_state 3 20),
      [EvMakeRequest (GET_tree 0),
       EvVerifyConsistency (MutationLogTreeHead (ex_head 5)) (MutationLogTreeHead (ex_head 3)),
       EvVerifyInclusion (ex_log_head 9) (ex_head 3),
       EvVerifiedLatestTreeHead (Some (ex_log_head 9)),
       EvVerifyInclusion (ex_log_head 20) (ex_head 3)]) \<and>
   VerifiedMapState
     (ex_env [3] None (\<lambda>h. if TreeSize h = 9 then Some (Opaque 3) else Some (Opaque 5))
        Map.empty)
     (Some (ex_state 5 9)) 0 [] =
     (Inl (Error (Opaque 5)),
      [EvMakeRequest (GET_tree 0),
       EvVerifyConsistency (MutationLogTreeHead (ex_head 5)) (MutationLogTreeHead (ex_head 3)),
       EvVerifyInclusion (ex_log_head 9) (ex_head 3),
       EvVerifiedLatestTreeHead (Some (ex_log_head 9)),
       EvVerifyInclusion (ex_log_head 20) (ex_head 3)]) \<and>
   VerifiedMapState
     ((ex_env [3] None (\<lambda>h. Some (Opaque 3)) Map.empty)
        \<lparr>TreeHeadLog_VerifiedLatestTreeHead := \<lambda>tr prev. Inl (Opaque 4)\<rparr>)
     (Some (ex_state 5 9)) 0 [] =
     (Inl (Error (Opaque 4)),
      [EvMakeRequest (GET_tree 0),
       EvVerifyConsistency (MutationLogTreeHead (ex_head 5)) (MutationLogTreeHead (ex_head 3)),
       EvVerifyInclusion (ex_log_head 9) (ex_head 3),
       EvVerifiedLatestTreeHead (Some (ex_log_head 9))])"
proof -
  let ?P = "ex_state 5 9"
  let ?F = "(ex_env [3] None (\<lambda>h. Some (Opaque 3)) Map.empty)
              \<lparr>TreeHeadLog_VerifiedLatestTreeHead := \<lambda>tr prev. Inl (Opaque 4)\<rparr>"
  have slow: "\<not> ((0::int) \<noteq> 0 \<and> MapTreeState_TreeSize ?P = 0)"
    by simp
  have fetch: "TreeHead (ex_env [3] None incl Map.empty) 0 [] =
      (Inr (ex_head 3), [EvMakeRequest (GET_tree 0)])" for incl
    by (simp add: ex_TreeHead requests_in_def)
  have cons: "MutationLog_VerifyConsistency (ex_env [3] None incl Map.empty)
      [EvMakeRequest (GET_tree 0)]
      (MutationLogTreeHead (MapTreeHead_of ?P)) (MutationLogTreeHead (ex_head 3)) = None" for incl
    by simp
  have large: "MapTreeHead_TreeSize (ex_head 3) \<le> TreeSize (TreeHeadLogTreeHead ?P)"
    by simp
  have fetchF: "TreeHead ?F 0 [] = (Inr (ex_head 3), [EvMakeRequest (GET_tree 0)])"
    by (simp add: TreeHead_def ex_env_def ex_head_def requests_in_def)
  have consF: "MutationLog_VerifyConsistency ?F [EvMakeRequest (GET_tree 0)]
      (MutationLogTreeHead (MapTreeHead_of ?P)) (MutationLogTreeHead (ex_head 3)) = None"
    by (simp add: ex_env_def)
  have callsF:
    "TreeHeadLog_VerifyInclusion ?F tr h m = Some (Opaque 3)"
    "TreeHeadLog_VerifiedLatestTreeHead ?F tr prev = Inl (Opaque 4)" for tr h m prev
    by (simp_all add: ex_env_def)
  note run = VerifiedMapState_shortcut [OF slow fetch cons refl large refl refl]
  note runF = VerifiedMapState_shortcut [OF slow fetchF consF refl large refl refl]
  from run [of "\<lambda>h. None"] run [of "\<lambda>h. if TreeSize h = 9 then Some (Opaque 3) else None"]
    run [of "\<lambda>h. if TreeSize h = 9 then Some (Opaque 3) else Some (Opaque 5)"]
    runF large fetch [of "\<lambda>h. None"]
  show ?thesis
    by (simp add: ex_state_eq callsF)
qed

text \<open>
  C3. With a previous state \<open>p\<close>: when the state that \<^verbatim>\<open>VerifiedLatestMapState\<close> has
  fetched and verified (the result \<open>head\<close> of \<^verbatim>\<open>VerifiedMapState\<close> at \<^verbatim>\<open>Head\<close>) is not
  larger than \<open>p\<close>, the call returns \<open>p\<close> itself with a nil error, and \<open>head\<close> is dropped.
\<close>

theorem VerifiedLatestMapState_keeps_prev:
  assumes "VerifiedMapState env (Some p) Head tr = (Inr head, tr1)"
    and "MapTreeState_TreeSize head \<le> MapTreeState_TreeSize p"
  shows "VerifiedLatestMapState env (Some p) tr = (Inr p, tr1)"
  using assms by (simp add: VerifiedLatestMapState_def)

theorem VerifiedLatestMapState_keeps_prev_witness:
  "VerifiedMapState (ex_env [3] None (\<lambda>h. None) Map.empty) (Some (ex_state 5 9)) Head [] =
     (Inr (ex_state 3 9),
      [EvMakeRequest (GET_tree 0),
       EvVerifyConsistency (MutationLogTreeHead (ex_head 5)) (MutationLogTreeHead (ex_head 3)),
       EvVerifyInclusion (ex_log_head 9) (ex_head 3)]) \<and>
   MapTreeState_TreeSize (ex_state 3 9) \<le> MapTreeState_TreeSize (ex_state 5 9) \<and>
   VerifiedLatestMapState (ex_env [3] None (\<lambda>h. None) Map.empty) (Some (ex_state 5 9)) [] =
     (Inr (ex_state 5 9),
      [EvMakeRequest (GET_tree 0),
       EvVerifyConsistency (MutationLogTreeHead (ex_head 5)) (MutationLogTreeHead (ex_head 3)),
       EvVerifyInclusion (ex_log_head 9) (ex_head 3)])"
proof -
  have le: "MapTreeState_TreeSize (ex_state 3 9) \<le> MapTreeState_TreeSize (ex_state 5 9)"
    by simp
  from VerifiedLatestMapState_keeps_prev [OF ex_lagging le] ex_lagging le
  show ?thesis by blast
qed

text \<open>
  C4. With a previous state \<open>p\<close> and a tree size that is not the sentinel 0: when \<open>p\<close>
  has that size, \<^verbatim>\<open>VerifiedMapState\<close> returns \<open>p\<close> itself and the trace is unchanged,
  so no request and no verification call was made.
\<close>

theorem VerifiedMapState_fast_path:
  assumes "treeSize \<noteq> 0" and "MapTreeState_TreeSize p = treeSize"
  shows "VerifiedMapState env (Some p) treeSize tr = (Inr p, tr)"
  using assms by (simp add: VerifiedMapState_def)

theorem VerifiedMapState_fast_path_witness:
  "(5::int) \<noteq> 0 \<and> MapTreeState_TreeSize (ex_state 5 9) = 5 \<and>
   VerifiedMapState (ex_env [] None (\<lambda>h. None) Map.empty) (Some (ex_state 5 9)) 5 [] =
     (Inr (ex_state 5 9), [])"
proof -
  have size: "MapTreeState_TreeSize (ex_state 5 9) = 5"
    by simp
  show ?thesis
    using VerifiedMapState_fast_path
      [of 5 "ex_state 5 9" "ex_env [] None (\<lambda>h. None) Map.empty" "[]"] size
    by simp
qed

text \<open>
  C5. Without a previous state, for every tree size and however the run ends: the calls
  that \<^verbatim>\<open>VerifiedMapState\<close> adds to the trace contain no consistency check; and when
  it returns a state, the calls were the fetch of the map head, the fetch of the
  verified latest tree-head-log head (seeded with nil) and the inclusion check of the
  map head in that head, which answered nil.
\<close>

theorem VerifiedMapState_without_prev:
  assumes "VerifiedMapState env None treeSize tr = (r, tr')"
  shows "\<exists>new. tr' = tr @ new \<and> (\<forall>old nw. EvVerifyConsistency old nw \<notin> set new) \<and>
           (\<forall>st. r = Inr st \<longrightarrow>
              new = [EvMakeRequest (GET_tree treeSize), EvVerifiedLatestTreeHead None,
                     EvVerifyInclusion (TreeHeadLogTreeHead st) (MapTreeHead_of st)] \<and>
              TreeHeadLog_VerifiedLatestTreeHead env (tr @ [EvMakeRequest (GET_tree treeSize)])
                None = Inr (TreeHeadLogTreeHead st) \<and>
              TreeHeadLog_VerifyInclusion env
                (tr @ [EvMakeRequest (GET_tree treeSize), EvVerifiedLatestTreeHead None])
                (TreeHeadLogTreeHead st) (MapTreeHead_of st) = None)"
proof (cases "TreeHead env treeSize tr")
  case (Pair h tr1)
  then have tr1: "tr1 = tr @ [EvMakeRequest (GET_tree treeSize)]"
    by (rule TreeHead_trace)
  show ?thesis
  proof (cases h)
    case (Inl f)
    with Pair assms tr1 show ?thesis
      by (auto simp: VerifiedMapState_def)
  next
    case (Inr mapHead)
    with Pair assms tr1 show ?thesis
      by (auto simp: VerifiedMapState_def consistency_step_def shortcut_step_def normal_step_def
          Let_def split: sum.splits option.splits)
  qed
qed

theorem VerifiedMapState_without_prev_witness:
  "VerifiedMapState (ex_env [7] None (\<lambda>h. None) Map.empty) None 7 [] =
     (Inr (ex_state 7 20),
      [EvMakeRequest (GET_tree 7), EvVerifiedLatestTreeHead None,
       EvVerifyInclusion (ex_log_head 20) (ex_head 7)]) \<and>
   (\<forall>old nw. EvVerifyConsistency old nw \<notin>
      set [EvMakeRequest (GET_tree 7), EvVerifiedLatestTreeHead None,
           EvVerifyInclusion (ex_log_head 20) (ex_head 7) :: bytes event]) \<and>
   TreeHeadLog_VerifyInclusion (ex_env [7] None (\<lambda>h. None) Map.empty)
     [EvMakeRequest (GET_tree 7), EvVerifiedLatestTreeHead None]
     (ex_log_head 20) (ex_head 7) = None"
proof -
  have run: "VerifiedMapState (ex_env [7] None (\<lambda>h. None) Map.empty) None 7 [] =
     (Inr (ex_state 7 20),
      [EvMakeRequest (GET_tree 7), EvVerifiedLatestTreeHead None,
       EvVerifyInclusion (ex_log_head 20) (ex_head 7)])"
    by (simp add: VerifiedMapState_def ex_TreeHead requests_in_def consistency_step_def
        shortcut_step_def normal_step_def ex_state_eq)
  from VerifiedMapState_without_prev [OF run] run
  show ?thesis by simp
qed

subsection \<open>The key lookup\<close>

text \<open>
  C6. On the verified read path, with a trusted state \<open>st\<close>: when the proof that
  \<^verbatim>\<open>Get\<close> returns declares a tree size other than the map size of \<open>st\<close>,
  \<^verbatim>\<open>VerifiedGet\<close> returns the verification error and no value. (\<^verbatim>\<open>VerifiedGet\<close>
  itself compares nothing: the rejection is the one of \<open>Verify\<close>.)
\<close>

theorem VerifiedGet_rejects_tree_size_mismatch:
  assumes "Get env key (MapTreeState_TreeSize st) factory tr = (Inr proof, tr1)"
    and "ProofTreeSize proof \<noteq> MapTreeState_TreeSize st"
  shows "VerifiedGet env key (Some st) factory tr =
           (Inl (Error ErrVerificationFailed), tr1 @ [EvVerify proof (MapTreeHead_of st)])"
  using assms
  by (simp add: VerifiedGet_def Verify_def MapTreeState_TreeSize_def)

theorem VerifiedGet_rejects_tree_size_mismatch_witness:
  "Get (ex_env [] None (\<lambda>h. None) [''X-Verified-Treesize'' \<mapsto> [''4'']]) ''k''
     (MapTreeState_TreeSize (ex_state 5 9)) ex_factory [] =
     (Inr \<lparr>Value = ''v'', ProofTreeSize = 4, AuditPath = replicate 256 [], Key = ''k''\<rparr>,
      [EvMakeRequest (GET_key 5 ''k'' [])]) \<and>
   ProofTreeSize \<lparr>Value = ''v'', ProofTreeSize = 4, AuditPath = replicate 256 [], Key = ''k''\<rparr>
     \<noteq> MapTreeState_TreeSize (ex_state 5 9) \<and>
   VerifiedGet (ex_env [] None (\<lambda>h. None) [''X-Verified-Treesize'' \<mapsto> [''4'']]) ''k''
     (Some (ex_state 5 9)) ex_factory [] =
     (Inl (Error ErrVerificationFailed),
      [EvMakeRequest (GET_key 5 ''k'' []),
       EvVerify \<lparr>Value = ''v'', ProofTreeSize = 4, AuditPath = replicate 256 [], Key = ''k''\<rparr>
         (ex_head 5)])"
proof -
  have differ:
    "ProofTreeSize \<lparr>Value = ''v'', ProofTreeSize = 4, AuditPath = replicate 256 [], Key = ''k''\<rparr>
       \<noteq> MapTreeState_TreeSize (ex_state 5 9)"
    by simp
  from VerifiedGet_rejects_tree_size_mismatch [OF ex_Get_size_4 differ] ex_Get_size_4 differ
  show ?thesis by simp
qed

text \<open>
  C7. The claim that an index outside \<open>[0, 256)\<close> is ignored fails below 0: the parser
  tests \<^verbatim>\<open>idx < 256\<close> only, and for the header \<^verbatim>\<open>-1/00\<close> the store
  \<^verbatim>\<open>prv[-1] = bs\<close> panics, in \<^verbatim>\<open>parseHeadersForProof\<close> and so in \<^verbatim>\<open>Get\<close>. An
  index of 256 or more is ignored, and a repeated index overwrites
  (\<open>proof_token_well_formed\<close>; \<open>ex_ignored\<close> and \<open>ex_overwrite\<close> below).
\<close>

theorem parseHeadersForProof_negative_index:
  "parseHeadersForProof [''X-Verified-Proof'' \<mapsto> [''-1/00'']] =
     Inl (Panic (IndexOutOfRange (- 1))) \<and>
   Get (ex_env [] None (\<lambda>h. None)
          [''X-Verified-Proof'' \<mapsto> [''-1/00''], ''X-Verified-Treesize'' \<mapsto> [''5'']])
     ''k'' 5 ex_factory [] =
     (Inl (Panic (IndexOutOfRange (- 1))), [EvMakeRequest (GET_key 5 ''k'' [])])"
proof -
  have "parseHeadersForProof [''X-Verified-Proof'' \<mapsto> [''-1/00'']] =
     Inl (Panic (IndexOutOfRange (- 1)))"
    by (simp add: parser_eval)
  moreover have "parseHeadersForProof
      [''X-Verified-Proof'' \<mapsto> [''-1/00''], ''X-Verified-Treesize'' \<mapsto> [''5'']] =
     Inl (Panic (IndexOutOfRange (- 1)))"
    by (simp add: parser_eval)
  ultimately show ?thesis
    by (simp add: Get_def)
qed

lemma ex_ignored:
  "parseHeadersForProof [''X-Verified-Proof'' \<mapsto> [''256/00'']] = Inr (replicate 256 [])"
  by (simp add: parser_eval)

lemma ex_overwrite:
  "parseHeadersForProof [''X-Verified-Proof'' \<mapsto> [''3/ab,3/cd'']] =
     Inr ((replicate 256 [])[3 := [CHR 0xCD]])"
proof -
  have "char_of (205::nat) = CHR 0xCD"
    by code_simp
  then show ?thesis
    by (simp add: parser_eval)
qed

text \<open>
  C8, as amended. The claim fails for a piece without \<^verbatim>\<open>/\<close>: the parser skips it, so
  \<^verbatim>\<open>Get\<close> returns a proof and \<^verbatim>\<open>VerifiedGet\<close> goes on to \<^verbatim>\<open>Verify\<close>
  (\<open>Get_skips_token_without_slash\<close> below). What holds: when the comma-separated pieces of
  the \<^verbatim>\<open>X-Verified-Proof\<close> values are harmless up to a piece \<open>t\<close> that has a \<^verbatim>\<open>/\<close>
  and a bad index or bad hex bytes, then \<^verbatim>\<open>Get\<close> returns the decode error of \<open>t\<close>
  and no proof, and so does \<^verbatim>\<open>VerifiedGet\<close>; the only call in the trace is the request,
  so \<^verbatim>\<open>Verify\<close> was not invoked.
\<close>

theorem Get_malformed_proof_metadata:
  assumes resp: "MakeRequest env tr (GET_key treeSize key (Format factory)) = Inr (val, headers)"
    and hdr: "headers ''X-Verified-Proof'' = Some hs"
    and toks: "concat (map (Split CHR '','') hs) = pre @ t # post"
    and pre: "\<forall>c \<in> set pre. harmless c"
    and bad: "token_error t = Some e"
  shows "is_decode_error e \<and>
         Get env key treeSize factory tr =
           (Inl (Error e), tr @ [EvMakeRequest (GET_key treeSize key (Format factory))]) \<and>
         (MapTreeState_TreeSize st = treeSize \<longrightarrow>
            VerifiedGet env key (Some st) factory tr =
              (Inl (Error e), tr @ [EvMakeRequest (GET_key treeSize key (Format factory))]))"
proof -
  have "parseHeadersForProof headers = Inl (Error e)"
    using hdr toks proof_tokens_stop [OF pre bad, of "replicate 256 []" post]
    by (simp add: parseHeadersForProof_def proof_headers_concat)
  then have get: "Get env key treeSize factory tr =
      (Inl (Error e), tr @ [EvMakeRequest (GET_key treeSize key (Format factory))])"
    using resp by (simp add: Get_def)
  then show ?thesis
    using token_error_decode [OF bad] by (auto simp: VerifiedGet_def)
qed

theorem Get_malformed_proof_metadata_witness:
  "concat (map (Split CHR '','') [''3/ab, x/00'']) = [''3/ab''] @ '' x/00'' # [] \<and>
   harmless ''3/ab'' \<and>
   token_error '' x/00'' = Some (NumError ''x'' ErrSyntax) \<and>
   Get (ex_env [] None (\<lambda>h. None)
          [''X-Verified-Proof'' \<mapsto> [''3/ab, x/00''], ''X-Verified-Treesize'' \<mapsto> [''5'']])
     ''k'' 5 ex_factory [] =
     (Inl (Error (NumError ''x'' ErrSyntax)), [EvMakeRequest (GET_key 5 ''k'' [])]) \<and>
   VerifiedGet (ex_env [] None (\<lambda>h. None)
          [''X-Verified-Proof'' \<mapsto> [''3/ab, x/00''], ''X-Verified-Treesize'' \<mapsto> [''5'']])
     ''k'' (Some (ex_state 5 9)) ex_factory [] =
     (Inl (Error (NumError ''x'' ErrSyntax)), [EvMakeRequest (GET_key 5 ''k'' [])]) \<and>
   token_error ''7/0g'' = Some (InvalidByteError CHR ''g'') \<and>
   Get (ex_env [] None (\<lambda>h. None) [''X-Verified-Proof'' \<mapsto> [''7/0g'']])
     ''k'' 5 ex_factory [] =
     (Inl (Error (InvalidByteError CHR ''g'')), [EvMakeRequest (GET_key 5 ''k'' [])])"
proof -
  let ?H = "[''X-Verified-Proof'' \<mapsto> [''3/ab, x/00''], ''X-Verified-Treesize'' \<mapsto> [''5'']]
              :: Header"
  let ?E = "ex_env [] None (\<lambda>h. None) ?H"
  let ?H2 = "[''X-Verified-Proof'' \<mapsto> [''7/0g'']] :: Header"
  let ?E2 = "ex_env [] None (\<lambda>h. None) ?H2"
  have resp: "MakeRequest ?E [] (GET_key 5 ''k'' (Format ex_factory)) = Inr (''v'', ?H)"
    by simp
  have hdr: "?H ''X-Verified-Proof'' = Some [''3/ab, x/00'']"
    by simp
  have toks: "concat (map (Split CHR '','') [''3/ab, x/00'']) = [''3/ab''] @ '' x/00'' # []"
    by simp
  have ok: "harmless ''3/ab''"
    by (simp add: token_eval)
  then have pre: "\<forall>c \<in> set [''3/ab'']. harmless c"
    by simp
  have bad: "token_error '' x/00'' = Some (NumError ''x'' ErrSyntax)"
    by (simp add: token_eval)
  have resp2: "MakeRequest ?E2 [] (GET_key 5 ''k'' (Format ex_factory)) = Inr (''v'', ?H2)"
    by simp
  have hdr2: "?H2 ''X-Verified-Proof'' = Some [''7/0g'']"
    by simp
  have toks2: "concat (map (Split CHR '','') [''7/0g'']) = [] @ ''7/0g'' # []"
    by simp
  have pre2: "\<forall>c \<in> set ([] :: string list). harmless c"
    by simp
  have bad2: "token_error ''7/0g'' = Some (InvalidByteError CHR ''g'')"
    by (simp add: token_eval)
  from Get_malformed_proof_metadata [OF resp hdr toks pre bad, of "ex_state 5 9"]
    Get_malformed_proof_metadata [OF resp2 hdr2 toks2 pre2 bad2, of "ex_state 5 9"]
    toks ok bad bad2
  show ?thesis by simp
qed

text \<open>
  The counterexample to C8 as stated: the audit-path header \<^verbatim>\<open>garbage\<close> is not an
  \<^verbatim>\<open>index/hex\<close> piece, yet \<^verbatim>\<open>Get\<close> returns a proof (with an empty audit path) and
  \<^verbatim>\<open>VerifiedGet\<close> invokes \<^verbatim>\<open>Verify\<close> and returns the value.
\<close>

theorem Get_skips_token_without_slash:
  "token_error ''garbage'' = None \<and>
   Get (ex_env [] None (\<lambda>h. None)
          [''X-Verified-Proof'' \<mapsto> [''garbage''], ''X-Verified-Treesize'' \<mapsto> [''5'']])
     ''k'' 5 ex_factory [] =
     (Inr \<lparr>Value = ''v'', ProofTreeSize = 5, AuditPath = replicate 256 [], Key = ''k''\<rparr>,
      [EvMakeRequest (GET_key 5 ''k'' [])]) \<and>
   VerifiedGet (ex_env [] None (\<lambda>h. None)
          [''X-Verified-Proof'' \<mapsto> [''garbage''], ''X-Verified-Treesize'' \<mapsto> [''5'']])
     ''k'' (Some (ex_state 5 9)) ex_factory [] =
     (Inr ''v'',
      [EvMakeRequest (GET_key 5 ''k'' []),
       EvVerify \<lparr>Value = ''v'', ProofTreeSize = 5, AuditPath = replicate 256 [], Key = ''k''\<rparr>
         (ex_head 5)])"
proof -
  let ?H = "[''X-Verified-Proof'' \<mapsto> [''garbage''], ''X-Verified-Treesize'' \<mapsto> [''5'']]
              :: Header"
  have parse: "parseHeadersForProof ?H = Inr (replicate 256 [])"
    by (simp add: parseHeadersForProof_def proof_token_no_slash)
  have get: "Get (ex_env [] None (\<lambda>h. None) ?H) ''k'' 5 ex_factory [] =
     (Inr \<lparr>Value = ''v'', ProofTreeSize = 5, AuditPath = replicate 256 [], Key = ''k''\<rparr>,
      [EvMakeRequest (GET_key 5 ''k'' [])])"
    by (simp add: Get_def parse Header_Get_def Atoi_5)
  have root: "MapRootHash (ex_head 5) = ''r''"
    by (simp add: ex_head_def)
  have "VerifiedGet (ex_env [] None (\<lambda>h. None) ?H) ''k'' (Some (ex_state 5 9)) ex_factory [] =
     (Inr ''v'',
      [EvMakeRequest (GET_key 5 ''k'' []),
       EvVerify \<lparr>Value = ''v'', ProofTreeSize = 5, AuditPath = replicate 256 [], Key = ''k''\<rparr>
         (ex_head 5)])"
    using get by (simp add: VerifiedGet_def Verify_def root)
  moreover have "token_error ''garbage'' = None"
    by (simp add: token_error_def)
  ultimately show ?thesis
    using get by simp
qed

subsection \<open>The polling waiter\<close>

text \<open>
  C9, as amended. The claim's rule compares with the last poll; the loop compares with
  the largest size it has seen (\<open>BlockUntilSize_no_reset_below_largest\<close> below). What
  holds: when the server answers the polls with heads \<open>hs\<close> below the target and then
  with a head \<open>h\<close> that reaches it, \<^verbatim>\<open>BlockUntilSize\<close> returns \<open>h\<close>, the first fetched head
  of size at least the target, after one fetch and one sleep per head of \<open>hs\<close>; the
  sleeps are \<open>wait_intervals\<close> from -1 and one second: one second each time the observed
  size exceeds the largest size observed before, twice the previous interval (in
  \<^verbatim>\<open>int64\<close> nanoseconds) otherwise. In particular the sizes 5, 5, 7, 7, 7, 10 with
  target 10 give the sleeps 1, 2, 1, 2, 4 seconds and the head of size 10.
\<close>

theorem BlockUntilSize_backoff:
  "(polls_answered env (requests_in tr) (hs @ [h]) \<longrightarrow>
    (\<forall>x \<in> set hs. MapTreeHead_TreeSize x < target) \<longrightarrow>
    target \<le> MapTreeHead_TreeSize h \<longrightarrow>
    BlockUntilSize env target tr =
      Some (Inr h,
            tr @ poll_trace (wait_intervals (- 1) Second (map MapTreeHead_TreeSize hs)) @
              [EvMakeRequest (GET_tree Head)])) \<and>
   (polls_answered env 0 (map ex_head [5, 5, 7, 7, 7, 10]) \<longrightarrow>
    BlockUntilSize env 10 [] =
      Some (Inr (ex_head 10),
            [EvMakeRequest (GET_tree Head), EvSleep Second,
             EvMakeRequest (GET_tree Head), EvSleep (2 * Second),
             EvMakeRequest (GET_tree Head), EvSleep Second,
             EvMakeRequest (GET_tree Head), EvSleep (2 * Second),
             EvMakeRequest (GET_tree Head), EvSleep (4 * Second),
             EvMakeRequest (GET_tree Head)]))"
proof (intro conjI impI)
  assume "polls_answered env (requests_in tr) (hs @ [h])"
    and "\<forall>x \<in> set hs. MapTreeHead_TreeSize x < target"
    and "target \<le> MapTreeHead_TreeSize h"
  then show "BlockUntilSize env target tr =
      Some (Inr h,
            tr @ poll_trace (wait_intervals (- 1) Second (map MapTreeHead_TreeSize hs)) @
              [EvMakeRequest (GET_tree Head)])"
    unfolding BlockUntilSize_def by (rule BlockUntilSize_loop_returns)
next
  assume "polls_answered env 0 (map ex_head [5, 5, 7, 7, 7, 10])"
  then have "polls_answered env (requests_in ([] :: 'a event list))
      (map ex_head [5, 5, 7, 7, 7] @ [ex_head 10])"
    by simp
  from BlockUntilSize_loop_returns [OF this, of 10 "- 1" Second]
  show "BlockUntilSize env 10 [] =
      Some (Inr (ex_head 10),
            [EvMakeRequest (GET_tree Head), EvSleep Second,
             EvMakeRequest (GET_tree Head), EvSleep (2 * Second),
             EvMakeRequest (GET_tree Head), EvSleep Second,
             EvMakeRequest (GET_tree Head), EvSleep (2 * Second),
             EvMakeRequest (GET_tree Head), EvSleep (4 * Second),
             EvMakeRequest (GET_tree Head)])"
    by (simp add: BlockUntilSize_def)
qed

theorem BlockUntilSize_backoff_witness:
  "polls_answered (ex_env [5, 5, 7, 7, 7, 10] None (\<lambda>h. None) Map.empty) 0
     (map ex_head [5, 5, 7, 7, 7, 10]) \<and>
   map MapTreeHead_TreeSize (map ex_head [5, 5, 7, 7, 7]) = [5, 5, 7, 7, 7] \<and>
   (10::int) \<le> MapTreeHead_TreeSize (ex_head 10) \<and>
   wait_intervals (- 1) Second [5, 5, 7, 7, 7] =
     [Second, 2 * Second, Second, 2 * Second, 4 * Second] \<and>
   BlockUntilSize (ex_env [5, 5, 7, 7, 7, 10] None (\<lambda>h. None) Map.empty) 10 [] =
     Some (Inr (ex_head 10),
           [EvMakeRequest (GET_tree Head), EvSleep Second,
            EvMakeRequest (GET_tree Head), EvSleep (2 * Second),
            EvMakeRequest (GET_tree Head), EvSleep Second,
            EvMakeRequest (GET_tree Head), EvSleep (2 * Second),
            EvMakeRequest (GET_tree Head), EvSleep (4 * Second),
            EvMakeRequest (GET_tree Head)])"
proof -
  let ?E = "ex_env [5, 5, 7, 7, 7, 10] None (\<lambda>h. None) Map.empty"
  have polls: "polls_answered ?E 0 (map ex_head [5, 5, 7, 7, 7, 10])"
    by (rule ex_polls_answered) simp
  then have polls': "polls_answered ?E (requests_in ([] :: bytes event list))
      (map ex_head [5, 5, 7, 7, 7] @ [ex_head 10])"
    by simp
  have small: "\<forall>x \<in> set (map ex_head [5, 5, 7, 7, 7]). MapTreeHead_TreeSize x < 10"
    by simp
  have reached: "(10::int) \<le> MapTreeHead_TreeSize (ex_head 10)"
    by simp
  from BlockUntilSize_backoff [of ?E "[]" "map ex_head [5, 5, 7, 7, 7]" "ex_head 10" 10]
    polls polls' small reached
  show ?thesis by simp
qed

text \<open>
  The counterexample to C9 as stated: for the sizes 5, 3, 4, 10 and target 10 the third
  observed size, 4, is larger than the one of the poll before, 3, and the third sleep is
  4 seconds, not 1: the interval is doubled, since 4 does not exceed 5.
\<close>

theorem BlockUntilSize_no_reset_below_largest:
  "(3::int) < 4 \<and> 4 * Second \<noteq> Second \<and>
   BlockUntilSize (ex_env [5, 3, 4, 10] None (\<lambda>h. None) Map.empty) 10 [] =
     Some (Inr (ex_head 10),
           [EvMakeRequest (GET_tree Head), EvSleep Second,
            EvMakeRequest (GET_tree Head), EvSleep (2 * Second),
            EvMakeRequest (GET_tree Head), EvSleep (4 * Second),
            EvMakeRequest (GET_tree Head)])"
proof -
  let ?E = "ex_env [5, 3, 4, 10] None (\<lambda>h. None) Map.empty"
  have "polls_answered ?E 0 (map ex_head [5, 3, 4, 10])"
    by (rule ex_polls_answered) simp
  then have "polls_answered ?E (requests_in ([] :: bytes event list))
      (map ex_head [5, 3, 4] @ [ex_head 10])"
    by simp
  from BlockUntilSize_loop_returns [OF this, of 10 "- 1" Second]
  show ?thesis
    by (simp add: BlockUntilSize_def Second_def)
qed

text \<open>
  The doubling is \<^verbatim>\<open>int64\<close> multiplication: after 34 doublings in a row the interval
  is negative, after 55 it is 0.
\<close>

lemma backoff_wraps:
  "sint (2 ^ 34 * Second) < 0" "2 ^ 55 * Second = 0"
  by (simp_all add: Second_def)

subsection \<open>The audit path of a returned proof\<close>

text \<open>
  C10. A proof that \<^verbatim>\<open>Get\<close> returns has an audit path of exactly 256 entries; and when
  the response has no \<^verbatim>\<open>X-Verified-Proof\<close> header at all, while the entry decodes and
  the tree-size header is a number, \<^verbatim>\<open>Get\<close> returns a proof whose 256 entries are
  all empty.
\<close>

theorem Get_audit_path_256:
  "(Get env key treeSize factory tr = (Inr proof, tr1) \<longrightarrow> length (AuditPath proof) = 256) \<and>
   (MakeRequest env tr (GET_key treeSize key (Format factory)) = Inr (val, headers) \<longrightarrow>
    headers ''X-Verified-Proof'' = None \<longrightarrow>
    CreateFromBytes factory val = Inr rv \<longrightarrow>
    Atoi (Header_Get headers ''X-Verified-Treesize'') = Inr vts \<longrightarrow>
    Get env key treeSize factory tr =
      (Inr \<lparr>Value = rv, ProofTreeSize = vts, AuditPath = replicate 256 [], Key = key\<rparr>,
       tr @ [EvMakeRequest (GET_key treeSize key (Format factory))]))"
proof (intro conjI impI)
  assume "Get env key treeSize factory tr = (Inr proof, tr1)"
  then show "length (AuditPath proof) = 256"
    by (auto simp: Get_def Let_def split: sum.splits prod.splits dest: parseHeadersForProof_length)
next
  assume "MakeRequest env tr (GET_key treeSize key (Format factory)) = Inr (val, headers)"
    and "headers ''X-Verified-Proof'' = None"
    and "CreateFromBytes factory val = Inr rv"
    and "Atoi (Header_Get headers ''X-Verified-Treesize'') = Inr vts"
  then show "Get env key treeSize factory tr =
      (Inr \<lparr>Value = rv, ProofTreeSize = vts, AuditPath = replicate 256 [], Key = key\<rparr>,
       tr @ [EvMakeRequest (GET_key treeSize key (Format factory))])"
    by (simp add: Get_def parseHeadersForProof_def)
qed

theorem Get_audit_path_256_witness:
  "MakeRequest (ex_env [] None (\<lambda>h. None) [''X-Verified-Treesize'' \<mapsto> [''5'']]) []
     (GET_key 5 ''k'' (Format ex_factory)) =
     Inr (''v'', [''X-Verified-Treesize'' \<mapsto> [''5'']]) \<and>
   [''X-Verified-Treesize'' \<mapsto> [''5'']] ''X-Verified-Proof'' = None \<and>
   CreateFromBytes ex_factory ''v'' = Inr ''v'' \<and>
   Atoi (Header_Get [''X-Verified-Treesize'' \<mapsto> [''5'']] ''X-Verified-Treesize'') = Inr 5 \<and>
   Get (ex_env [] None (\<lambda>h. None) [''X-Verified-Treesize'' \<mapsto> [''5'']]) ''k'' 5 ex_factory [] =
     (Inr \<lparr>Value = ''v'', ProofTreeSize = 5, AuditPath = replicate 256 [], Key = ''k''\<rparr>,
      [EvMakeRequest (GET_key 5 ''k'' [])]) \<and>
   length (AuditPath \<lparr>Value = ''v'', ProofTreeSize = 5, AuditPath = replicate 256 [],
                      Key = ''k''\<rparr>) = 256"
proof -
  let ?H = "[''X-Verified-Treesize'' \<mapsto> [''5'']] :: Header"
  let ?E = "ex_env [] None (\<lambda>h. None) ?H"
  have resp: "MakeRequest ?E [] (GET_key 5 ''k'' (Format ex_factory)) = Inr (''v'', ?H)"
    by simp
  have absent: "?H ''X-Verified-Proof'' = None"
    by simp
  have entry: "CreateFromBytes ex_factory ''v'' = Inr ''v''"
    by simp
  have size: "Atoi (Header_Get ?H ''X-Verified-Treesize'') = Inr 5"
    by (simp add: Header_Get_def Atoi_5)
  from Get_audit_path_256 [of ?E "''k''" 5 ex_factory "[]"
      "\<lparr>Value = ''v'', ProofTreeSize = 5, AuditPath = replicate 256 [], Key = ''k''\<rparr>"
      "[EvMakeRequest (GET_key 5 ''k'' [])]" "''v''" ?H "''v''" 5]
    resp absent entry size
  show ?thesis by simp
qed

end
